theory Spec2Isabelle
  imports Complex_Main "HOL-Library.Log_Nat"
begin

section \<open>JavaScript numbers and the clamped byte array\<close>

text \<open>
  The source computes on JavaScript numbers, IEEE 754 doubles, and stores into
  \<open>imageData.data\<close>, a \<open>Uint8ClampedArray\<close>. A number is \<open>NaN\<close> or a rational; an
  arithmetic operator computes the exact result and rounds it to the nearest double, a tie
  going to the even significand. Infinities and the sign of zero are left out: no value
  computed from bytes or from a random number below 1 comes near the overflow threshold,
  and no operation of the source tells the two zeros apart.
\<close>

datatype number = NaN | Num rat

definition round_half_even :: "rat \<Rightarrow> int" where
  "round_half_even x =
     (let f = \<lfloor>x\<rfloor> in
      if x < of_int f + 1 / 2 then f
      else if of_int f + 1 / 2 < x then f + 1
      else if even f then f else f + 1)"

text \<open>
  The exponent \<open>e\<close> with \<open>2\<^sup>e \<le> |x| < 2\<^sup>e\<^sup>+\<^sup>1\<close>, from the bit lengths of the numerator and
  the denominator; and rounding to 53 significant bits, with the fixed spacing
  \<open>2\<^sup>-\<^sup>1\<^sup>0\<^sup>7\<^sup>4\<close> below the normal range.
\<close>

definition binade :: "rat \<Rightarrow> int" where
  "binade x =
     (let (p, q) = quotient_of \<bar>x\<bar>; d = bitlen p - bitlen q
      in if 2 powi d \<le> \<bar>x\<bar> then d else d - 1)"

definition round_double :: "rat \<Rightarrow> rat" where
  "round_double x =
     (if x = 0 then 0
      else let u = 2 powi (max (binade x) (- 1022) - 52)
           in of_int (round_half_even (x / u)) * u)"

definition is_double :: "rat \<Rightarrow> bool" where
  "is_double x = (round_double x = x)"

fun sub :: "number \<Rightarrow> number \<Rightarrow> number" where
  "sub (Num a) (Num b) = Num (round_double (a - b))"
| "sub _ _ = NaN"

fun add :: "number \<Rightarrow> number \<Rightarrow> number" where
  "add (Num a) (Num b) = Num (round_double (a + b))"
| "add _ _ = NaN"

fun mul :: "number \<Rightarrow> number \<Rightarrow> number" where
  "mul (Num a) (Num b) = Num (round_double (a * b))"
| "mul _ _ = NaN"

text \<open>\<open>Math.min\<close> and \<open>Math.max\<close> return \<open>NaN\<close> as soon as one argument is \<open>NaN\<close>.\<close>

fun Math_min :: "number \<Rightarrow> number \<Rightarrow> number" where
  "Math_min (Num a) (Num b) = Num (min a b)"
| "Math_min _ _ = NaN"

fun Math_max :: "number \<Rightarrow> number \<Rightarrow> number" where
  "Math_max (Num a) (Num b) = Num (max a b)"
| "Math_max _ _ = NaN"

text \<open>
  The conversion applied by every store into a \<open>Uint8ClampedArray\<close>: \<open>NaN\<close> becomes 0,
  the value is clamped to \<open>[0, 255]\<close> and rounded to the nearest integer, a tie going to
  the even neighbour.
\<close>

fun ToUint8Clamp :: "number \<Rightarrow> int" where
  "ToUint8Clamp NaN = 0"
| "ToUint8Clamp (Num x) = round_half_even (min (max x 0) 255)"

text \<open>
  \<open>data[i]\<close> as a read: an index past the end yields \<open>undefined\<close>, which every
  arithmetic operator of the loop turns into \<open>NaN\<close>. \<open>data[i] = v\<close> as a write: an index
  past the end is ignored, an index inside stores the converted value.
\<close>

definition data_get :: "int list \<Rightarrow> nat \<Rightarrow> number" where
  "data_get data i = (if i < length data then Num (of_int (data ! i)) else NaN)"

definition data_set :: "int list \<Rightarrow> nat \<Rightarrow> number \<Rightarrow> int list" where
  "data_set data i v = (if i < length data then data[i := ToUint8Clamp v] else data)"

section \<open>The pixel loop of applyXRayEffect\<close>

text \<open>The two statements applied to one channel: inversion, then contrast.\<close>

definition invert :: "int list \<Rightarrow> nat \<Rightarrow> int list" where
  "invert data k = data_set data k (sub (Num 255) (data_get data k))"

text \<open>\<open>(x - 128) * 1.5 + 128\<close>, and the same between \<open>Math.max(0, Math.min(255, _))\<close>.\<close>

definition stretch :: "number \<Rightarrow> number" where
  "stretch x = add (mul (sub x (Num 128)) (Num (3 / 2))) (Num 128)"

definition contrast_value :: "number \<Rightarrow> number" where
  "contrast_value x = Math_max (Num 0) (Math_min (Num 255) (stretch x))"

definition contrast :: "int list \<Rightarrow> nat \<Rightarrow> int list" where
  "contrast data k = data_set data k (contrast_value (data_get data k))"

text \<open>One iteration of the loop body, in the order of the source.\<close>

definition loop_body :: "int list \<Rightarrow> nat \<Rightarrow> int list" where
  "loop_body data i =
     (let d1 = invert data i;
          d2 = invert d1 (i + 1);
          d3 = invert d2 (i + 2);
          d4 = contrast d3 i;
          d5 = contrast d4 (i + 1);
          d6 = contrast d5 (i + 2)
      in d6)"

text \<open>\<open>for (let i = 0; i < data.length; i += 4)\<close>, started at any index.\<close>

function xray_loop :: "int list \<Rightarrow> nat \<Rightarrow> int list" where
  "xray_loop data i = (if i < length data then xray_loop (loop_body data i) (i + 4) else data)"
  by pat_completeness auto
termination
  by (relation "measure (\<lambda>(data, i). length data - i)")
     (auto simp: loop_body_def invert_def contrast_def data_set_def Let_def)

declare xray_loop.simps [simp del]

text \<open>
  The loop as a statement with an outcome. The source checks nothing about the buffer and
  has no \<open>throw\<close>; reads and writes of a typed array and arithmetic on numbers never
  raise. So the loop always completes normally. \<open>InvalidInput\<close> is the error kind the
  specification names; \<open>IndexSizeError\<close> is the exception \<open>getImageData\<close> raises for a
  rectangle of zero width or height.
\<close>

datatype error = InvalidInput | IndexSizeError


text \<open>
  What the two stores of one iteration leave in a channel that held \<open>v\<close>: the inverted
  value goes through the array once, the contrasted value a second time.
\<close>

definition channel :: "int \<Rightarrow> int" where
  "channel v =
     ToUint8Clamp (contrast_value (Num (of_int (ToUint8Clamp (sub (Num 255) (Num (of_int v)))))))"

text \<open>
  The formula of the specification, in its own words:
  \<open>clamp(0, 255, (255 - v - 128) * 1.5 + 128)\<close>, in exact arithmetic.
\<close>

definition spec_channel :: "rat \<Rightarrow> rat" where
  "spec_channel v = max 0 (min 255 ((255 - v - 128) * (3 / 2) + 128))"

section \<open>applyXRayEffect on bitmaps\<close>

text \<open>
  An image element, a canvas and an \<open>ImageData\<close> each carry a width, a height and RGBA
  bytes. They are objects with identity: the loop writes into one of them, and
  \<open>putImageData\<close> into another. The store is the list of objects, an address is an index,
  and a new object is appended.
\<close>

record bitmap =
  width :: nat
  height :: nat
  pixels :: "int list"

type_synonym heap = "bitmap list"

definition alloc :: "heap \<Rightarrow> bitmap \<Rightarrow> heap \<times> nat" where
  "alloc h b = (h @ [b], length h)"

text \<open>A bitmap of transparent black, as a canvas has after it is created or resized.\<close>

definition blank :: "nat \<Rightarrow> nat \<Rightarrow> bitmap" where
  "blank w v = \<lparr>width = w, height = v, pixels = replicate (4 * w * v) 0\<rparr>"

text \<open>\<open>canvas.width = w\<close> and \<open>canvas.height = v\<close>: each assignment clears the canvas.\<close>

definition set_width :: "heap \<Rightarrow> nat \<Rightarrow> nat \<Rightarrow> heap" where
  "set_width h c w = h[c := blank w (height (h ! c))]"

definition set_height :: "heap \<Rightarrow> nat \<Rightarrow> nat \<Rightarrow> heap" where
  "set_height h c v = h[c := blank (width (h ! c)) v]"

text \<open>
  \<open>ctx.drawImage(img, 0, 0)\<close> at its only call site: the canvas has just been given the
  size of the image and is transparent black, so the image's pixels become the canvas's
  pixels (the loss a premultiplied backing store may add on translucent pixels is left
  out). An image without width or height draws nothing.
\<close>

definition drawImage :: "heap \<Rightarrow> nat \<Rightarrow> nat \<Rightarrow> heap" where
  "drawImage h c m =
     (if width (h ! m) = 0 \<or> height (h ! m) = 0 then h
      else h[c := (h ! c)\<lparr>pixels := pixels (h ! m)\<rparr>])"

text \<open>
  \<open>ctx.getImageData(0, 0, canvas.width, canvas.height)\<close>: a new \<open>ImageData\<close> object
  holding a copy of the canvas's pixels; an \<open>IndexSizeError\<close> when the width or the
  height asked for is 0.
\<close>

definition getImageData :: "heap \<Rightarrow> nat \<Rightarrow> error + heap \<times> nat" where
  "getImageData h c =
     (if width (h ! c) = 0 \<or> height (h ! c) = 0 then Inl IndexSizeError
      else Inr (alloc h \<lparr>width = width (h ! c), height = height (h ! c), pixels = pixels (h ! c)\<rparr>))"

text \<open>The loop, writing into \<open>imageData.data\<close> where it lies.\<close>

definition xray_in_place :: "heap \<Rightarrow> nat \<Rightarrow> heap" where
  "xray_in_place h d = h[d := (h ! d)\<lparr>pixels := xray_loop (pixels (h ! d)) 0\<rparr>]"

text \<open>\<open>ctx.putImageData(imageData, 0, 0)\<close>: the canvas takes the pixels of the \<open>ImageData\<close>.\<close>

definition putImageData :: "heap \<Rightarrow> nat \<Rightarrow> nat \<Rightarrow> heap" where
  "putImageData h c d = h[c := (h ! c)\<lparr>pixels := pixels (h ! d)\<rparr>]"

text \<open>
  The promise of \<open>applyXRayEffect\<close> has a \<open>resolve\<close> and no \<open>reject\<close>: it is resolved
  with the data URL, or it stays pending (no \<open>load\<close> event, or an exception inside the
  handler, which nothing catches).
\<close>

datatype 'a promise = Pending | Resolved 'a

record xray_run =
  heap_after :: heap
  canvas :: nat
  img :: nat
  imageData :: "nat option"
  returned :: "string promise"

text \<open>
  The \<open>img.onload\<close> handler, for the canvas at \<open>c\<close> and the loaded image at \<open>m\<close>.
  \<open>toDataURL\<close> is the platform's PNG encoder, a parameter.
\<close>

definition img_onload ::
  "(bitmap \<Rightarrow> string) \<Rightarrow> heap \<Rightarrow> nat \<Rightarrow> nat \<Rightarrow> heap \<times> nat option \<times> string promise" where
  "img_onload toDataURL h c m =
     (let h1 = set_width h c (width (h ! m));
          h2 = set_height h1 c (height (h1 ! m));
          h3 = drawImage h2 c m
      in case getImageData h3 c of
           Inl e \<Rightarrow> (h3, None, Pending)
         | Inr (h4, d) \<Rightarrow>
             (let h5 = xray_in_place h4 d;
                  h6 = putImageData h5 c d
              in (h6, Some d, Resolved (toDataURL (h6 ! c)))))"

text \<open>
  \<open>applyXRayEffect(imageSrc)\<close>: a canvas and an image element are created, the image
  loads \<open>imageSrc\<close>, and the handler runs on the \<open>load\<close> event. \<open>decode\<close> is the
  platform's image decoder, a parameter; \<open>None\<close> is a source that never loads.
\<close>

definition applyXRayEffect ::
  "(string \<Rightarrow> bitmap option) \<Rightarrow> (bitmap \<Rightarrow> string) \<Rightarrow> heap \<Rightarrow> string \<Rightarrow> xray_run" where
  "applyXRayEffect decode toDataURL h imageSrc =
     (let (h1, c) = alloc h (blank 300 150);
          (h2, m) = alloc h1 (blank 0 0)
      in case decode imageSrc of
           None \<Rightarrow>
             \<lparr>heap_after = h2, canvas = c, img = m, imageData = None, returned = Pending\<rparr>
         | Some b \<Rightarrow>
             (let h3 = h2[m := b];
                  (h4, d, r) = img_onload toDataURL h3 c m
              in \<lparr>heap_after = h4, canvas = c, img = m, imageData = d, returned = r\<rparr>))"

section \<open>The mock analysis and the component state\<close>

text \<open>
  \<open>Math.floor(Math.random() * 40) + 60\<close>, as a function of the value \<open>r\<close> that
  \<open>Math.random()\<close> returned. Both \<open>processImage\<close> functions compute the confidence so.
\<close>

definition mock_confidence :: "rat \<Rightarrow> int" where
  "mock_confidence r = \<lfloor>round_double (r * 40)\<rfloor> + 60"

record mock_result =
  hasPneumonia :: bool
  confidence :: int
  findings :: "string list"

definition mockResult :: "rat \<Rightarrow> rat \<Rightarrow> mock_result" where
  "mockResult r1 r2 =
     \<lparr>hasPneumonia = (1 / 2 < r1),
      confidence = mock_confidence r2,
      findings = [''Lung fields appear clear'', ''No obvious consolidation detected'',
                  ''Pleural spaces are normal'']\<rparr>"

text \<open>
  The state of \<open>XRayProcessor\<close>: its four \<open>useState\<close> cells, and the work that has been
  started and has not yet called back: the files being read, the calls of
  \<open>applyXRayEffect\<close> being awaited, and the timers set, each with the image source that
  \<open>processImage\<close> captured. \<open>processedOf\<close> and \<open>analysisOf\<close> are not in the source: they
  record from which image source the value in \<open>processedImage\<close> and in \<open>analysisResult\<close>
  was computed.
\<close>

record state =
  selectedImage :: "string option"
  processedImage :: "string option"
  isProcessing :: bool
  analysisResult :: "mock_result option"
  reads :: "string list"
  awaited :: "string list"
  timers :: "string list"
  processedOf :: "string option"
  analysisOf :: "string option"

definition initial :: state where
  "initial =
     \<lparr>selectedImage = None, processedImage = None, isProcessing = False,
      analysisResult = None, reads = [], awaited = [], timers = [],
      processedOf = None, analysisOf = None\<rparr>"

text \<open>A string option as a condition: \<open>null\<close> and the empty string are falsy.\<close>

definition truthy :: "string option \<Rightarrow> bool" where
  "truthy v = (case v of None \<Rightarrow> False | Some u \<Rightarrow> u \<noteq> [])"

definition remove_nth :: "nat \<Rightarrow> 'a list \<Rightarrow> 'a list" where
  "remove_nth k xs = take k xs @ drop (Suc k) xs"

text \<open>
  \<open>handleImageUpload\<close>: with a file, a reader is started on it (the file is named by the
  data URL its read will give); without one, nothing happens.
\<close>

definition handleImageUpload :: "string option \<Rightarrow> state \<Rightarrow> state" where
  "handleImageUpload file s =
     (case file of None \<Rightarrow> s | Some url \<Rightarrow> s\<lparr>reads := reads s @ [url]\<rparr>)"

text \<open>\<open>reader.onload\<close>, for the read at position \<open>k\<close>.\<close>

definition reader_onload :: "nat \<Rightarrow> state \<Rightarrow> state" where
  "reader_onload k s =
     s\<lparr>selectedImage := Some (reads s ! k), processedImage := None, analysisResult := None,
       reads := remove_nth k (reads s), processedOf := None, analysisOf := None\<rparr>"

text \<open>\<open>processImage\<close> up to its \<open>await\<close>.\<close>

definition processImage :: "state \<Rightarrow> state" where
  "processImage s =
     (if \<not> truthy (selectedImage s) then s
      else s\<lparr>isProcessing := True, awaited := awaited s @ [the (selectedImage s)]\<rparr>)"

text \<open>
  \<open>processImage\<close> after its \<open>await\<close>, when the promise for the awaited call at position
  \<open>k\<close> has been resolved with \<open>url\<close>: the result is shown and the timer is set.
\<close>

definition processImage_resumed :: "nat \<Rightarrow> string \<Rightarrow> state \<Rightarrow> state" where
  "processImage_resumed k url s =
     s\<lparr>processedImage := Some url, processedOf := Some (awaited s ! k),
       awaited := remove_nth k (awaited s), timers := timers s @ [awaited s ! k]\<rparr>"

text \<open>The timer's callback, with the two values \<open>Math.random()\<close> returns in it.\<close>

definition timer_fired :: "nat \<Rightarrow> rat \<Rightarrow> rat \<Rightarrow> state \<Rightarrow> state" where
  "timer_fired k r1 r2 s =
     s\<lparr>analysisResult := Some (mockResult r1 r2), isProcessing := False,
       analysisOf := Some (timers s ! k), timers := remove_nth k (timers s)\<rparr>"

text \<open>
  \<open>resetProcessor\<close>; it also empties the file input's value, which is not part of the
  state here.
\<close>

definition resetProcessor :: "state \<Rightarrow> state" where
  "resetProcessor s =
     s\<lparr>selectedImage := None, processedImage := None, analysisResult := None,
       processedOf := None, analysisOf := None\<rparr>"

text \<open>
  What can happen to the component. The two buttons are rendered only while
  \<open>selectedImage\<close> is truthy, and the Process button is disabled while \<open>isProcessing\<close>.
  While \<open>isProcessing\<close> a full-screen overlay lies over the page, so the file chooser and
  the buttons take no click then. A callback runs only for work that was started.
\<close>

datatype event =
    Change "string option"
  | ReaderLoad nat
  | ClickProcess
  | EffectResolved nat
  | TimerFired nat rat rat
  | ClickReset

definition step ::
  "(string \<Rightarrow> bitmap option) \<Rightarrow> (bitmap \<Rightarrow> string) \<Rightarrow> state \<Rightarrow> event \<Rightarrow> state option" where
  "step decode toDataURL s e =
     (case e of
        Change file \<Rightarrow> if isProcessing s then None else Some (handleImageUpload file s)
      | ReaderLoad k \<Rightarrow> if k < length (reads s) then Some (reader_onload k s) else None
      | ClickProcess \<Rightarrow>
          if truthy (selectedImage s) \<and> \<not> isProcessing s then Some (processImage s) else None
      | EffectResolved k \<Rightarrow>
          if k < length (awaited s) then
            (case returned (applyXRayEffect decode toDataURL [] (awaited s ! k)) of
               Pending \<Rightarrow> None
             | Resolved url \<Rightarrow> Some (processImage_resumed k url s))
          else None
      | TimerFired k r1 r2 \<Rightarrow>
          if k < length (timers s) \<and> 0 \<le> r1 \<and> r1 < 1 \<and> 0 \<le> r2 \<and> r2 < 1
          then Some (timer_fired k r1 r2 s) else None
      | ClickReset \<Rightarrow>
          if truthy (selectedImage s) \<and> \<not> isProcessing s then Some (resetProcessor s) else None)"

fun run ::
  "(string \<Rightarrow> bitmap option) \<Rightarrow> (bitmap \<Rightarrow> string) \<Rightarrow> state \<Rightarrow> event list \<Rightarrow> state option" where
  "run decode toDataURL s [] = Some s"
| "run decode toDataURL s (e # es) =
     (case step decode toDataURL s e of
        None \<Rightarrow> None
      | Some s' \<Rightarrow> run decode toDataURL s' es)"

text \<open>
  The property of C10: a result that is shown was computed from the image that is
  selected.
\<close>

definition results_current :: "state \<Rightarrow> bool" where
  "results_current s =
     ((case processedImage s of None \<Rightarrow> True | Some u \<Rightarrow> processedOf s = selectedImage s) \<and>
      (case analysisResult s of None \<Rightarrow> True | Some a \<Rightarrow> analysisOf s = selectedImage s))"

text \<open>
  A decoder and an encoder to run the model on: a source is a one-pixel opaque image, black
  for \<open>''A''\<close> and white for any other non-empty string; the encoding of a bitmap is its
  bytes as characters.
\<close>

definition sample_decode :: "string \<Rightarrow> bitmap option" where
  "sample_decode src =
     (if src = [] then None
      else if src = ''A'' then Some \<lparr>width = 1, height = 1, pixels = [0, 0, 0, 255]\<rparr>
      else Some \<lparr>width = 1, height = 1, pixels = [255, 255, 255, 255]\<rparr>)"

definition sample_toDataURL :: "bitmap \<Rightarrow> string" where
  "sample_toDataURL b = map char_of (pixels b)"

section \<open>Facts about rounding\<close>

lemma round_half_even_le_int: "x \<le> of_int n \<Longrightarrow> round_half_even x \<le> n"
proof -
  assume a: "x \<le> of_int n"
  then have f: "\<lfloor>x\<rfloor> \<le> n" by (simp add: floor_le_iff)
  show ?thesis
  proof (cases "\<lfloor>x\<rfloor> = n")
    case True
    have "of_int \<lfloor>x\<rfloor> \<le> x" by (rule of_int_floor_le)
    with True a have "x = of_int n" by simp
    then show ?thesis by (simp add: round_half_even_def)
  next
    case False
    with f have "\<lfloor>x\<rfloor> + 1 \<le> n" by simp
    then show ?thesis by (auto simp: round_half_even_def Let_def)
  qed
qed

lemma round_half_even_nonneg: "0 \<le> x \<Longrightarrow> 0 \<le> round_half_even x"
proof -
  assume "0 \<le> x"
  then have "0 \<le> \<lfloor>x\<rfloor>" by simp
  then show ?thesis by (auto simp: round_half_even_def Let_def)
qed

lemma round_half_even_below_half:
  assumes "x < of_int n - 1 / 2"
  shows "round_half_even x \<le> n - 1"
proof -
  have "x < of_int n" using assms by simp
  then have f: "\<lfloor>x\<rfloor> \<le> n - 1" by (simp add: floor_less_iff)
  show ?thesis
  proof (cases "\<lfloor>x\<rfloor> = n - 1")
    case True
    then have "x < of_int \<lfloor>x\<rfloor> + 1 / 2" using assms by simp
    then show ?thesis using True by (simp add: round_half_even_def Let_def)
  next
    case False
    with f have "\<lfloor>x\<rfloor> + 1 \<le> n - 1" by simp
    then show ?thesis by (auto simp: round_half_even_def Let_def)
  qed
qed


lemma bitlen_rat_bounds:
  assumes "0 < (p::int)"
  shows "(2::rat) powi (bitlen p - 1) \<le> of_int p \<and> of_int p < (2::rat) powi bitlen p"
proof -
  from assms have b1: "1 \<le> bitlen p" by (auto simp: bitlen_alt_def)
  from bitlen_bounds [OF assms]
  have lo: "2 ^ nat (bitlen p - 1) \<le> p" and hi: "p < 2 ^ nat (bitlen p)" by simp_all
  have "(of_int (2 ^ nat (bitlen p - 1)) :: rat) \<le> of_int p"
    using lo by (simp only: of_int_le_iff)
  then have l: "(2::rat) powi (bitlen p - 1) \<le> of_int p"
    using b1 by (simp add: power_int_nonneg_exp)
  have "(of_int p :: rat) < of_int (2 ^ nat (bitlen p))"
    using hi by (simp only: of_int_less_iff)
  then have h: "of_int p < (2::rat) powi bitlen p"
    using b1 by (simp add: power_int_nonneg_exp)
  from l h show ?thesis ..
qed

lemma binade_bounds:
  assumes "x \<noteq> 0"
  shows "2 powi binade x \<le> \<bar>x\<bar> \<and> \<bar>x\<bar> < 2 powi (binade x + 1)"
proof -
  obtain p q where pq: "quotient_of \<bar>x\<bar> = (p, q)" by (cases "quotient_of \<bar>x\<bar>")
  then have q: "0 < q" by (rule quotient_of_denom_pos)
  from pq have x: "\<bar>x\<bar> = of_int p / of_int q" by (rule quotient_of_div)
  have xpos: "0 < \<bar>x\<bar>" using assms by simp
  have p: "0 < p"
  proof (rule ccontr)
    assume "\<not> 0 < p"
    then have "of_int p / (of_int q :: rat) \<le> 0" using q by (simp add: divide_le_0_iff)
    with x xpos show False by simp
  qed
  define d where "d = bitlen p - bitlen q"
  from bitlen_rat_bounds [OF p] have pl: "(2::rat) powi (bitlen p - 1) \<le> of_int p"
    and ph: "of_int p < (2::rat) powi bitlen p" by simp_all
  from bitlen_rat_bounds [OF q] have ql: "(2::rat) powi (bitlen q - 1) \<le> of_int q"
    and qh: "of_int q < (2::rat) powi bitlen q" by simp_all
  have qpos: "0 < (of_int q :: rat)" using q by simp
  have "\<bar>x\<bar> < 2 powi bitlen p / 2 powi (bitlen q - 1)"
  proof -
    have "\<bar>x\<bar> < 2 powi bitlen p / of_int q"
      unfolding x using ph qpos by (simp add: divide_strict_right_mono)
    also have "\<dots> \<le> 2 powi bitlen p / 2 powi (bitlen q - 1)"
      using ql qpos by (intro divide_left_mono) (simp_all add: zero_less_mult_iff)
    finally show ?thesis .
  qed
  also have "\<dots> = 2 powi (d + 1)"
    by (simp add: d_def flip: power_int_diff) (simp add: algebra_simps)
  finally have up: "\<bar>x\<bar> < 2 powi (d + 1)" .
  have "(2::rat) powi (d - 1) = 2 powi (bitlen p - 1) / 2 powi bitlen q"
    by (simp add: d_def flip: power_int_diff) (simp add: algebra_simps)
  also have "\<dots> \<le> of_int p / 2 powi bitlen q"
    using pl by (simp add: divide_right_mono)
  also have "\<dots> \<le> of_int p / of_int q"
    using qh qpos p by (intro divide_left_mono) (simp_all add: zero_less_mult_iff)
  finally have low: "2 powi (d - 1) \<le> \<bar>x\<bar>" unfolding x .
  have b: "binade x = (if 2 powi d \<le> \<bar>x\<bar> then d else d - 1)"
    by (simp add: binade_def pq d_def Let_def)
  show ?thesis
  proof (cases "2 powi d \<le> \<bar>x\<bar>")
    case True
    with b up show ?thesis by simp
  next
    case False
    with b low show ?thesis by simp
  qed
qed

lemma binade_unique:
  assumes "x \<noteq> 0" "2 powi e \<le> \<bar>x\<bar>" "\<bar>x\<bar> < 2 powi (e + 1)"
  shows "binade x = e"
proof -
  from binade_bounds [OF assms(1)]
  have lo: "2 powi binade x \<le> \<bar>x\<bar>" and hi: "\<bar>x\<bar> < 2 powi (binade x + 1)" by simp_all
  have "binade x < e + 1"
  proof (rule ccontr)
    assume "\<not> binade x < e + 1"
    then have "(2::rat) powi (e + 1) \<le> 2 powi binade x" by (intro power_int_increasing) simp_all
    with lo assms(3) show False by simp
  qed
  moreover have "e < binade x + 1"
  proof (rule ccontr)
    assume "\<not> e < binade x + 1"
    then have "(2::rat) powi (binade x + 1) \<le> 2 powi e" by (intro power_int_increasing) simp_all
    with hi assms(2) show False by simp
  qed
  ultimately show ?thesis by simp
qed


lemma round_double_nonneg:
  assumes "0 \<le> x"
  shows "0 \<le> round_double x"
proof (cases "x = 0")
  case True
  then show ?thesis by (simp add: round_double_def)
next
  case False
  define u :: rat where "u = 2 powi (max (binade x) (- 1022) - 52)"
  have u: "0 < u" by (simp add: u_def)
  then have "0 \<le> x / u" using assms by simp
  then have "0 \<le> round_half_even (x / u)" by (rule round_half_even_nonneg)
  then have "0 \<le> of_int (round_half_even (x / u)) * u" using u by simp
  then show ?thesis using False by (simp add: round_double_def u_def Let_def)
qed

lemma double_below_one:
  assumes "is_double r" "0 \<le> r" "r < 1"
  shows "r \<le> 1 - 1 / 2 ^ 53"
proof (cases "r < 1 / 2")
  case True
  then show ?thesis by simp
next
  case False
  then have r0: "r \<noteq> 0" by auto
  have "binade r = - 1"
    using r0 False assms(3) by (intro binade_unique) (simp_all add: power_int_minus)
  then have rd: "round_double r = of_int (round_half_even (r / 2 powi (- 53))) * 2 powi (- 53)"
    using r0 by (simp add: round_double_def)
  define k where "k = round_half_even (r / 2 powi (- 53))"
  have p: "(2::rat) powi (- 53) = 1 / 2 ^ 53" by (simp add: power_int_minus_divide)
  from assms(1) rd have r: "r = of_int k / 2 ^ 53" by (simp add: is_double_def k_def p)
  with assms(3) have "(of_int k :: rat) < 2 ^ 53" by (simp add: divide_less_eq)
  then have "(of_int k :: rat) < of_int (2 ^ 53)" by simp
  then have "k < 2 ^ 53" by (simp only: of_int_less_iff)
  then have "k \<le> 2 ^ 53 - 1" by simp
  then have "(of_int k :: rat) \<le> of_int (2 ^ 53 - 1)" by (simp only: of_int_le_iff)
  then have "(of_int k :: rat) \<le> 2 ^ 53 - 1" by simp
  then show ?thesis unfolding r by (simp add: field_simps)
qed

lemma round_double_small:
  assumes "0 < x" "x < 32"
  shows "round_double x \<le> 32"
proof -
  have x0: "x \<noteq> 0" using assms by simp
  define e where "e = max (binade x) (- 1022)"
  define u :: rat where "u = 2 powi (e - 52)"
  have u: "0 < u" by (simp add: u_def)
  from binade_bounds [OF x0] assms(1)
  have lo: "2 powi binade x \<le> x" and hi: "x < 2 powi (binade x + 1)" by simp_all
  have "binade x < 5"
  proof (rule ccontr)
    assume "\<not> binade x < 5"
    then have "(2::rat) powi 5 \<le> 2 powi binade x" by (intro power_int_increasing) simp_all
    with lo assms(2) show False by simp
  qed
  then have e5: "e + 1 \<le> 5" by (simp add: e_def)
  have pw: "(2::rat) powi (e + 1) = 2 ^ 53 * 2 powi (e - 52)"
  proof -
    have "(2::rat) powi (53 + (e - 52)) = 2 powi 53 * 2 powi (e - 52)"
      by (rule power_int_add) simp
    moreover have "53 + (e - 52) = e + 1" by simp
    ultimately show ?thesis by simp
  qed
  have "x < 2 powi (e + 1)"
  proof -
    have "(2::rat) powi (binade x + 1) \<le> 2 powi (e + 1)"
      by (intro power_int_increasing) (simp_all add: e_def)
    with hi show ?thesis by simp
  qed
  also have "(2::rat) powi (e + 1) = 2 powi 53 * u"
    unfolding u_def using pw by simp
  finally have "x / u < 2 powi 53" using u by (simp add: divide_less_eq)
  then have "x / u \<le> of_int (2 ^ 53)" by simp
  then have "round_half_even (x / u) \<le> 2 ^ 53" by (rule round_half_even_le_int)
  then have "(of_int (round_half_even (x / u)) :: rat) \<le> of_int (2 ^ 53)"
    by (simp only: of_int_le_iff)
  then have "of_int (round_half_even (x / u)) * u \<le> 2 ^ 53 * u"
    using u by (simp add: mult_right_mono)
  also have "2 ^ 53 * u = 2 powi (e + 1)"
    unfolding u_def using pw by simp
  also have "\<dots> \<le> 2 powi 5" using e5 by (intro power_int_increasing) simp_all
  finally have "of_int (round_half_even (x / u)) * u \<le> 32" by simp
  then show ?thesis using x0 by (simp add: round_double_def u_def e_def Let_def)
qed

lemma round_double_top:
  assumes "32 \<le> x" "x \<le> 40 - 40 / 2 ^ 53"
  shows "round_double x < 40"
proof -
  have x0: "x \<noteq> 0" using assms by simp
  have "x < 64" using assms(2) by simp
  then have "binade x = 5" using assms(1) x0 by (intro binade_unique) simp_all
  then have rd: "round_double x = of_int (round_half_even (x / 2 powi (- 47))) * 2 powi (- 47)"
    using x0 by (simp add: round_double_def)
  have p: "(2::rat) powi (- 47) = 1 / 2 ^ 47" by (simp add: power_int_minus_divide)
  have "x * 2 ^ 47 \<le> (40 - 40 / 2 ^ 53) * 2 ^ 47" using assms(2) by simp
  also have "\<dots> < of_int (40 * 2 ^ 47) - 1 / 2" by simp
  finally have "x / 2 powi (- 47) < of_int (40 * 2 ^ 47) - 1 / 2" by (simp add: p)
  then have "round_half_even (x / 2 powi (- 47)) \<le> 40 * 2 ^ 47 - 1" by (rule round_half_even_below_half)
  then have "(of_int (round_half_even (x / 2 powi (- 47))) :: rat) \<le> of_int (40 * 2 ^ 47 - 1)"
    by (simp only: of_int_le_iff)
  then have "of_int (round_half_even (x / 2 powi (- 47))) * 2 powi (- 47)
      \<le> (40 * 2 ^ 47 - 1) * (1 / 2 ^ 47 :: rat)"
    unfolding p by (intro mult_right_mono) simp_all
  also have "\<dots> < 40" by simp
  finally show ?thesis unfolding rd .
qed

lemma round_double_half_int:
  assumes "\<bar>k\<bar> < 2 ^ 53"
  shows "round_double (of_int k / 2) = of_int k / 2"
proof (cases "k = 0")
  case True
  then show ?thesis by (simp add: round_double_def)
next
  case False
  define x :: rat where "x = of_int k / 2"
  define e where "e = binade x"
  have x0: "x \<noteq> 0" using False by (simp add: x_def)
  have "1 \<le> \<bar>k\<bar>" using False by simp
  then have "(of_int 1 :: rat) \<le> of_int \<bar>k\<bar>" by (simp only: of_int_le_iff)
  then have xl: "1 / 2 \<le> \<bar>x\<bar>" by (simp add: x_def)
  have "(of_int \<bar>k\<bar> :: rat) < of_int (2 ^ 53)" using assms by (simp only: of_int_less_iff)
  then have xh: "\<bar>x\<bar> < 2 ^ 52" by (simp add: x_def)
  from binade_bounds [OF x0]
  have lo: "2 powi e \<le> \<bar>x\<bar>" and hi: "\<bar>x\<bar> < 2 powi (e + 1)" by (simp_all add: e_def)
  have e52: "e < 52"
  proof (rule ccontr)
    assume "\<not> e < 52"
    then have "(2::rat) powi 52 \<le> 2 powi e" by (intro power_int_increasing) simp_all
    with lo xh show False by simp
  qed
  have e1: "- 1 \<le> e"
  proof (rule ccontr)
    assume "\<not> - 1 \<le> e"
    then have "(2::rat) powi (e + 1) \<le> 2 powi (- 1)" by (intro power_int_increasing) simp_all
    with hi xl show False by (simp add: power_int_minus)
  qed
  define n where "n = nat (51 - e)"
  have "(2::rat) powi (1 + int n) = 2 powi 1 * 2 powi int n" by (rule power_int_add) simp
  moreover have "1 + int n = 52 - e" using e52 by (simp add: n_def)
  ultimately have pw: "(2::rat) powi (52 - e) = 2 * 2 ^ n" by simp
  have "(2::rat) powi (e - 52) = 2 powi (- (52 - e))" by simp
  also have "\<dots> = 1 / (2 * 2 ^ n)" unfolding power_int_minus_divide pw ..
  finally have u: "(2::rat) powi (e - 52) = 1 / (2 * 2 ^ n)" .
  have q: "x / 2 powi (e - 52) = of_int (k * 2 ^ n)" unfolding u by (simp add: x_def)
  have "round_double x = of_int (round_half_even (x / 2 powi (e - 52))) * 2 powi (e - 52)"
    using x0 e1 by (simp add: round_double_def e_def max_def Let_def)
  also have "\<dots> = of_int (k * 2 ^ n) * 2 powi (e - 52)"
    unfolding q by (simp add: round_half_even_def)
  also have "\<dots> = x" unfolding u by (simp add: x_def)
  finally show ?thesis unfolding x_def .
qed

lemma round_double_int:
  assumes "\<bar>k\<bar> < 2 ^ 52"
  shows "round_double (of_int k) = of_int k"
proof -
  have "\<bar>2 * k\<bar> < 2 ^ 53" using assms by simp
  from round_double_half_int [OF this] show ?thesis by simp
qed

text \<open>
  The contrast formula is exact on a byte: its intermediate values are integers and
  halves of integers of small magnitude, which are doubles.
\<close>

lemma stretch_exact:
  assumes "0 \<le> w" "w \<le> 255"
  shows "stretch (Num (of_int w)) = Num ((of_int w - 128) * (3 / 2) + 128)"
proof -
  have a: "\<bar>w - 128\<bar> < 2 ^ 52" using assms by simp
  have "rat_of_int w - 128 = of_int (w - 128)" by simp
  then have "round_double (of_int w - 128) = round_double (of_int (w - 128))" by (rule arg_cong)
  also have "\<dots> = of_int (w - 128)" using a by (rule round_double_int)
  finally have s1: "sub (Num (of_int w)) (Num 128) = Num (of_int (w - 128))" by simp
  have b: "\<bar>3 * (w - 128)\<bar> < 2 ^ 53" using assms by simp
  have "rat_of_int (w - 128) * (3 / 2) = of_int (3 * (w - 128)) / 2" by simp
  then have "round_double (of_int (w - 128) * (3 / 2)) = round_double (of_int (3 * (w - 128)) / 2)"
    by (rule arg_cong)
  also have "\<dots> = of_int (3 * (w - 128)) / 2" using b by (rule round_double_half_int)
  finally have s2: "mul (Num (of_int (w - 128))) (Num (3 / 2)) = Num (of_int (3 * (w - 128)) / 2)"
    by simp
  have c: "\<bar>3 * (w - 128) + 256\<bar> < 2 ^ 53" using assms by simp
  have "rat_of_int (3 * (w - 128)) / 2 + 128 = of_int (3 * (w - 128) + 256) / 2"
    by (simp add: field_simps)
  then have "round_double (of_int (3 * (w - 128)) / 2 + 128) =
      round_double (of_int (3 * (w - 128) + 256) / 2)"
    by (rule arg_cong)
  also have "\<dots> = of_int (3 * (w - 128) + 256) / 2" using c by (rule round_double_half_int)
  finally have s3: "add (Num (of_int (3 * (w - 128)) / 2)) (Num 128) =
      Num (of_int (3 * (w - 128) + 256) / 2)"
    by simp
  have "stretch (Num (of_int w)) = Num (of_int (3 * (w - 128) + 256) / 2)"
    unfolding stretch_def s1 s2 s3 ..
  also have "of_int (3 * (w - 128) + 256) / 2 = (rat_of_int w - 128) * (3 / 2) + 128"
    by (simp add: field_simps)
  finally show ?thesis .
qed

section \<open>Facts about the clamped store\<close>

lemma round_half_even_int: "round_half_even (of_int n) = n"
  by (simp add: round_half_even_def)

lemma round_half_even_range:
  assumes "0 \<le> c" "c \<le> 255"
  shows "0 \<le> round_half_even c \<and> round_half_even c \<le> 255"
proof -
  define f where "f = \<lfloor>c\<rfloor>"
  have f0: "0 \<le> f" using assms by (simp add: f_def)
  have f255: "f \<le> 255" using assms unfolding f_def by (simp add: floor_le_iff)
  have top: "f \<le> 254" if "\<not> c < of_int f + 1 / 2"
  proof (rule ccontr)
    assume "\<not> f \<le> 254"
    with f255 have "f = 255" by simp
    with assms have "c < of_int f + 1 / 2" by simp
    with that show False by simp
  qed
  have "round_half_even c = (if c < of_int f + 1 / 2 then f
      else if of_int f + 1 / 2 < c then f + 1
      else if even f then f else f + 1)"
    by (simp add: round_half_even_def f_def Let_def)
  then show ?thesis using f0 f255 top by (auto split: if_splits)
qed

lemma ToUint8Clamp_range: "0 \<le> ToUint8Clamp x \<and> ToUint8Clamp x \<le> 255"
proof (cases x)
  case NaN
  then show ?thesis by simp
next
  case (Num r)
  have "0 \<le> min (max r 0) 255" "min (max r 0) 255 \<le> 255" by simp_all
  then show ?thesis using round_half_even_range Num by simp
qed

lemma ToUint8Clamp_int:
  assumes "0 \<le> n" "n \<le> 255"
  shows "ToUint8Clamp (Num (of_int n)) = n"
proof -
  have "min (max (rat_of_int n) 0) 255 = of_int n" using assms by simp
  then show ?thesis by (simp add: round_half_even_int)
qed

lemma channel_range: "0 \<le> channel v \<and> channel v \<le> 255"
  unfolding channel_def by (rule ToUint8Clamp_range)

lemma channel_spec:
  assumes "0 \<le> v" "v \<le> 255"
  shows "channel v = round_half_even (spec_channel (of_int v))"
proof -
  have "\<bar>255 - v\<bar> < 2 ^ 52" using assms by simp
  then have "round_double (of_int (255 - v)) = of_int (255 - v)" by (rule round_double_int)
  then have "sub (Num 255) (Num (of_int v)) = Num (of_int (255 - v))" by simp
  moreover have "ToUint8Clamp (Num (of_int (255 - v))) = 255 - v"
    using assms by (intro ToUint8Clamp_int) simp_all
  ultimately have inv: "ToUint8Clamp (sub (Num 255) (Num (of_int v))) = 255 - v" by simp
  have "stretch (Num (of_int (255 - v))) = Num ((of_int (255 - v) - 128) * (3 / 2) + 128)"
    using assms by (intro stretch_exact) simp_all
  then have "contrast_value (Num (of_int (255 - v))) = Num (spec_channel (of_int v))"
    by (simp add: contrast_value_def spec_channel_def)
  moreover have "min (max (spec_channel (of_int v)) 0) 255 = spec_channel (of_int v)"
    by (simp add: spec_channel_def)
  ultimately show ?thesis
    unfolding channel_def inv by simp
qed

section \<open>Facts about the loop\<close>

lemma length_invert: "length (invert data k) = length data"
  by (simp add: invert_def data_set_def)

lemma length_contrast: "length (contrast data k) = length data"
  by (simp add: contrast_def data_set_def)

lemma invert_nth:
  "j < length data \<Longrightarrow>
   invert data k ! j =
     (if j = k then ToUint8Clamp (sub (Num 255) (Num (of_int (data ! k)))) else data ! j)"
  by (simp add: invert_def data_set_def data_get_def nth_list_update del: ToUint8Clamp.simps)

lemma contrast_nth:
  "j < length data \<Longrightarrow>
   contrast data k ! j =
     (if j = k then ToUint8Clamp (contrast_value (Num (of_int (data ! k)))) else data ! j)"
  by (simp add: contrast_def data_set_def data_get_def nth_list_update del: ToUint8Clamp.simps)

lemma length_loop_body: "length (loop_body data i) = length data"
  by (simp add: loop_body_def Let_def length_invert length_contrast)

lemma loop_body_nth:
  assumes "j < length data"
  shows "loop_body data i ! j =
     (if j = i \<or> j = i + 1 \<or> j = i + 2 then channel (data ! j) else data ! j)"
proof -
  define d1 where "d1 = invert data i"
  define d2 where "d2 = invert d1 (i + 1)"
  define d3 where "d3 = invert d2 (i + 2)"
  define d4 where "d4 = contrast d3 i"
  define d5 where "d5 = contrast d4 (i + 1)"
  define d6 where "d6 = contrast d5 (i + 2)"
  have len: "length d1 = length data" "length d2 = length data" "length d3 = length data"
    "length d4 = length data" "length d5 = length data"
    by (simp_all add: d1_def d2_def d3_def d4_def d5_def length_invert length_contrast)
  have body: "loop_body data i = d6"
    by (simp add: loop_body_def Let_def d1_def d2_def d3_def d4_def d5_def d6_def)
  let ?inv = "\<lambda>v. ToUint8Clamp (sub (Num 255) (Num (of_int v)))"
  have d3: "d3 ! j = (if j = i \<or> j = i + 1 \<or> j = i + 2 then ?inv (data ! j) else data ! j)"
    if "j < length data" for j
    using that len unfolding d3_def d2_def d1_def
    by (simp add: invert_nth del: ToUint8Clamp.simps sub.simps)
  let ?con = "\<lambda>v. ToUint8Clamp (contrast_value (Num (of_int v)))"
  have d6: "d6 ! j = (if j = i \<or> j = i + 1 \<or> j = i + 2 then ?con (d3 ! j) else d3 ! j)"
    if "j < length data" for j
    using that len unfolding d6_def d5_def d4_def
    by (simp add: contrast_nth del: ToUint8Clamp.simps)
  show ?thesis
    unfolding body using assms
    by (simp add: d6 d3 channel_def del: ToUint8Clamp.simps sub.simps)
qed

lemma length_xray_loop: "length (xray_loop data i) = length data"
proof (induction data i rule: xray_loop.induct)
  case (1 data i)
  show ?case
  proof (cases "i < length data")
    case True
    with "1" show ?thesis by (simp add: xray_loop.simps [of data i] length_loop_body)
  next
    case False
    then show ?thesis by (simp add: xray_loop.simps [of data i])
  qed
qed

lemma xray_loop_nth:
  "j < length data \<Longrightarrow>
   xray_loop data i ! j =
     (if i \<le> j \<and> (j - i) mod 4 \<noteq> 3 then channel (data ! j) else data ! j)"
proof (induction data i rule: xray_loop.induct)
  case (1 data i)
  show ?case
  proof (cases "i < length data")
    case True
    have j: "j < length (loop_body data i)" using "1.prems" by (simp add: length_loop_body)
    have "xray_loop data i ! j = xray_loop (loop_body data i) (i + 4) ! j"
      using True by (simp add: xray_loop.simps [of data i])
    also have "\<dots> = (if i + 4 \<le> j \<and> (j - (i + 4)) mod 4 \<noteq> 3
                       then channel (loop_body data i ! j) else loop_body data i ! j)"
      using "1.IH" [OF True j] .
    also have "\<dots> = (if i \<le> j \<and> (j - i) mod 4 \<noteq> 3 then channel (data ! j) else data ! j)"
    proof (cases "i + 4 \<le> j")
      case True
      have "(j - (i + 4)) mod 4 = (j - i) mod 4"
      proof -
        from True obtain m where "j = i + 4 + m" using le_Suc_ex by blast
        then show ?thesis by simp
      qed
      with True "1.prems" show ?thesis by (simp add: loop_body_nth)
    next
      case False
      then consider "j < i" | "j = i" | "j = i + 1" | "j = i + 2" | "j = i + 3" by linarith
      then show ?thesis using "1.prems" by cases (simp_all add: loop_body_nth)
    qed
    finally show ?thesis .
  next
    case False
    with "1.prems" show ?thesis by (simp add: xray_loop.simps [of data i])
  qed
qed


section \<open>Facts about applyXRayEffect\<close>

text \<open>
  The three ways a call can go: the image loads with a positive size, it loads without
  width or height (\<open>getImageData\<close> raises), or it does not load.
\<close>

lemma applyXRayEffect_loaded:
  assumes "decode src = Some b" "0 < width b" "0 < height b"
  shows "applyXRayEffect decode enc h src =
    \<lparr>heap_after =
       h @ [\<lparr>width = width b, height = height b, pixels = xray_loop (pixels b) 0\<rparr>, b,
            \<lparr>width = width b, height = height b, pixels = xray_loop (pixels b) 0\<rparr>],
     canvas = length h, img = Suc (length h), imageData = Some (Suc (Suc (length h))),
     returned =
       Resolved (enc \<lparr>width = width b, height = height b, pixels = xray_loop (pixels b) 0\<rparr>)\<rparr>"
  using assms
  by (simp add: applyXRayEffect_def img_onload_def Let_def set_width_def set_height_def
      drawImage_def getImageData_def alloc_def xray_in_place_def putImageData_def blank_def
      nth_append list_update_append)

lemma applyXRayEffect_empty:
  assumes "decode src = Some b" "width b = 0 \<or> height b = 0"
  shows "applyXRayEffect decode enc h src =
    \<lparr>heap_after = h @ [blank (width b) (height b), b],
     canvas = length h, img = Suc (length h), imageData = None, returned = Pending\<rparr>"
  using assms
  by (auto simp add: applyXRayEffect_def img_onload_def Let_def set_width_def set_height_def
      drawImage_def getImageData_def alloc_def blank_def nth_append list_update_append)

lemma applyXRayEffect_unloaded:
  assumes "decode src = None"
  shows "applyXRayEffect decode enc h src =
    \<lparr>heap_after = h @ [blank 300 150, blank 0 0],
     canvas = length h, img = Suc (length h), imageData = None, returned = Pending\<rparr>"
  using assms by (simp add: applyXRayEffect_def alloc_def)

lemma reader_onload_clears:
  "processedImage (reader_onload k s) = None \<and> analysisResult (reader_onload k s) = None"
  by (simp add: reader_onload_def)

lemma resetProcessor_clears:
  "selectedImage (resetProcessor s) = None \<and> processedImage (resetProcessor s) = None \<and>
   analysisResult (resetProcessor s) = None"
  by (simp add: resetProcessor_def)

section \<open>The loop on three one-pixel buffers\<close>

text \<open>Opaque black, middle grey and white, each evaluated once.\<close>

lemma xray_loop_black: "xray_loop [0, 0, 0, 255] 0 = [255, 255, 255, 255]"
  by code_simp

lemma xray_loop_grey: "xray_loop [128, 128, 128, 255] 0 = [126, 126, 126, 255]"
  by code_simp

lemma xray_loop_white: "xray_loop [255, 255, 255, 255] 0 = [0, 0, 0, 255]"
  by code_simp

lemma xray_loop_grey_again: "xray_loop [126, 126, 126, 255] 0 = [130, 130, 130, 255]"
  by code_simp

lemma raw_black: "stretch (data_get (invert [0, 0, 0, 255] 0) 0) = Num (637 / 2)"
  by code_simp

lemma raw_grey: "stretch (data_get (invert [128, 128, 128, 255] 0) 0) = Num (253 / 2)"
  by code_simp

lemma raw_white: "stretch (data_get (invert [255, 255, 255, 255] 0) 0) = Num (- 64)"
  by code_simp

section \<open>The pixel transform: claims\<close>

text \<open>
  C1, as stated: every colour channel \<open>v\<close> is replaced by
  \<open>clamp(0, 255, (255 - v - 128) * 1.5 + 128)\<close>. At \<open>v = 128\<close> the formula is 126.5, and
  the output array holds the integer 126: the stored value is not the value of the formula.
\<close>

theorem C1_formula_counterexample:
  "xray_loop [128, 128, 128, 255] 0 ! 0 = 126 \<and>
   spec_channel (of_int ([128, 128, 128, 255] ! 0)) = 253 / 2 \<and>
   of_int (xray_loop [128, 128, 128, 255] 0 ! 0) \<noteq> spec_channel (of_int ([128, 128, 128, 255] ! 0))"
  by (simp add: xray_loop_grey spec_channel_def)

text \<open>
  C1, amended: for every buffer and every colour channel index \<open>j\<close> (an index that is not
  the fourth of its pixel) holding a byte \<open>v\<close>, the output holds
  \<open>clamp(0, 255, (255 - v - 128) * 1.5 + 128)\<close> rounded to the nearest integer, ties to the
  even one. It depends on no other element of the buffer.
\<close>

theorem C1_formula_rounded:
  assumes "j < length data" "j mod 4 \<noteq> 3" "0 \<le> data ! j" "data ! j \<le> 255"
  shows "xray_loop data 0 ! j = round_half_even (spec_channel (of_int (data ! j)))"
proof -
  have "xray_loop data 0 ! j = channel (data ! j)"
    using assms(1,2) by (simp add: xray_loop_nth)
  also have "\<dots> = round_half_even (spec_channel (of_int (data ! j)))"
    using assms(3,4) by (rule channel_spec)
  finally show ?thesis .
qed

theorem C1_formula_rounded_witness:
  "(1::nat) < length [10, 128, 200, 255 :: int] \<and> (1::nat) mod 4 \<noteq> 3 \<and>
   xray_loop [10, 128, 200, 255] 0 ! 1 = 126"
proof -
  have "round_half_even (spec_channel (of_int ([10, 128, 200, 255] ! 1))) = 126"
    by code_simp
  with C1_formula_rounded [of 1 "[10, 128, 200, 255]"] show ?thesis by simp
qed



text \<open>
  C4, as stated: \<open>v = 128\<close> gives the raw value 127.25, stored as about 127. The raw value
  the source computes is \<open>(127 - 128) * 1.5 + 128 = 126.5\<close>, and the array stores 126.
\<close>

theorem C4_midpoint_counterexample:
  "stretch (data_get (invert [128, 128, 128, 255] 0) 0) \<noteq> Num (509 / 4) \<and>
   xray_loop [128, 128, 128, 255] 0 ! 0 \<noteq> 127"
  by (simp add: raw_grey xray_loop_grey)

text \<open>
  C4, amended: \<open>v = 0\<close> gives the raw value 318.5 and the output 255; \<open>v = 128\<close> gives
  the raw value 126.5 and the output 126 (the tie goes to the even neighbour);
  \<open>v = 255\<close> gives the raw value -64 and the output 0.
\<close>

theorem C4_boundary_values:
  "stretch (data_get (invert [0, 0, 0, 255] 0) 0) = Num (637 / 2) \<and>
   xray_loop [0, 0, 0, 255] 0 = [255, 255, 255, 255] \<and>
   stretch (data_get (invert [128, 128, 128, 255] 0) 0) = Num (253 / 2) \<and>
   xray_loop [128, 128, 128, 255] 0 = [126, 126, 126, 255] \<and>
   stretch (data_get (invert [255, 255, 255, 255] 0) 0) = Num (- 64) \<and>
   xray_loop [255, 255, 255, 255] 0 = [0, 0, 0, 255]"
  by (simp add: raw_black raw_grey raw_white xray_loop_black xray_loop_grey xray_loop_white)

text \<open>
  C5: for every buffer and every pixel \<open>p\<close>, the alpha byte of the output, at index
  \<open>4 p + 3\<close>, is the alpha byte of the input.
\<close>

theorem C5_alpha_preserved:
  assumes "4 * p + 3 < length data"
  shows "xray_loop data 0 ! (4 * p + 3) = data ! (4 * p + 3)"
proof -
  have "(4 * p + 3) mod 4 = 3" by presburger
  with assms show ?thesis by (simp add: xray_loop_nth)
qed

theorem C5_alpha_preserved_witness:
  "4 * 1 + 3 < length [1, 2, 3, 40, 5, 6, 7, 80 :: int] \<and>
   xray_loop [1, 2, 3, 40, 5, 6, 7, 80] 0 ! (4 * 1 + 3) = 80"
  using C5_alpha_preserved [of 1 "[1, 2, 3, 40, 5, 6, 7, 80]"] by simp

text \<open>
  C7: for every buffer, every colour channel of the output lies in \<open>[0, 255]\<close>. The
  elements are unbounded integers here, so the bound is a fact about the stores, not about
  the type.
\<close>

theorem C7_output_in_range:
  assumes "j < length data" "j mod 4 \<noteq> 3"
  shows "0 \<le> xray_loop data 0 ! j \<and> xray_loop data 0 ! j \<le> 255"
  using assms by (simp add: xray_loop_nth channel_range)

theorem C7_output_in_range_witness:
  "(2::nat) < length [0, 128, 255, 77 :: int] \<and> (2::nat) mod 4 \<noteq> 3 \<and>
   0 \<le> xray_loop [0, 128, 255, 77] 0 ! 2 \<and> xray_loop [0, 128, 255, 77] 0 ! 2 \<le> 255"
  using C7_output_in_range [of 2 "[0, 128, 255, 77]"] by simp

text \<open>
  C8: the transform is not an involution. There is a byte \<open>v\<close> whose channel, transformed
  twice, is not \<open>v\<close>, and the opaque pixel of that grey level, transformed twice, is not
  the original pixel: 128 goes to 126 and then to 130.
\<close>

theorem C8_not_involution:
  "\<exists>v. 0 \<le> v \<and> v \<le> 255 \<and> channel (channel v) \<noteq> v \<and>
       xray_loop (xray_loop [v, v, v, 255] 0) 0 \<noteq> [v, v, v, 255]"
proof (intro exI [of _ 128] conjI)
  have "channel 128 = 126" "channel 126 = 130"
    by (simp_all add: channel_spec) code_simp+
  then show "channel (channel 128) \<noteq> 128" by simp
  have "xray_loop (xray_loop [128, 128, 128, 255] 0) 0 = [130, 130, 130, 255]"
    by (simp add: xray_loop_grey xray_loop_grey_again)
  then show "xray_loop (xray_loop [128, 128, 128, 255] 0) 0 \<noteq> [128, 128, 128, 255]" by simp
qed simp_all

section \<open>applyXRayEffect, the mock analysis and the component: claims\<close>

text \<open>
  C3: the transform never mutates its source. Whatever the source string decodes to, every
  object that existed before the call is the same after it; the image element, created
  by the call, still holds the decoded bitmap; and the buffer the loop writes into, the
  \<open>ImageData\<close>, is an object created by the call and is not the image. The canvas the
  result is encoded from is created by the call as well.
\<close>

theorem C3_source_not_mutated:
  "take (length h) (heap_after (applyXRayEffect decode enc h src)) = h \<and>
   length h \<le> canvas (applyXRayEffect decode enc h src) \<and>
   (\<forall>b. decode src = Some b \<longrightarrow>
      heap_after (applyXRayEffect decode enc h src) ! img (applyXRayEffect decode enc h src) = b) \<and>
   (\<forall>d. imageData (applyXRayEffect decode enc h src) = Some d \<longrightarrow>
      length h \<le> d \<and> d \<noteq> img (applyXRayEffect decode enc h src))"
proof (cases "decode src")
  case None
  then show ?thesis by (simp add: applyXRayEffect_unloaded)
next
  case (Some b)
  show ?thesis
  proof (cases "0 < width b \<and> 0 < height b")
    case True
    with Some show ?thesis by (simp add: applyXRayEffect_loaded nth_append)
  next
    case False
    with Some show ?thesis by (simp add: applyXRayEffect_empty nth_append)
  qed
qed

theorem C3_source_not_mutated_witness:
  "(\<lambda>s. Some \<lparr>width = 1, height = 1, pixels = [128, 128, 128, 255]\<rparr>) ''a'' =
     Some \<lparr>width = 1, height = 1, pixels = [128, 128, 128, 255]\<rparr> \<and>
   imageData (applyXRayEffect (\<lambda>s. Some \<lparr>width = 1, height = 1, pixels = [128, 128, 128, 255]\<rparr>)
      (\<lambda>b. ''png'') [blank 1 1] ''a'') = Some 3 \<and>
   heap_after (applyXRayEffect (\<lambda>s. Some \<lparr>width = 1, height = 1, pixels = [128, 128, 128, 255]\<rparr>)
      (\<lambda>b. ''png'') [blank 1 1] ''a'') =
     [blank 1 1,
      \<lparr>width = 1, height = 1, pixels = [126, 126, 126, 255]\<rparr>,
      \<lparr>width = 1, height = 1, pixels = [128, 128, 128, 255]\<rparr>,
      \<lparr>width = 1, height = 1, pixels = [126, 126, 126, 255]\<rparr>]"
proof -
  let ?r = "applyXRayEffect (\<lambda>s. Some \<lparr>width = 1, height = 1, pixels = [128, 128, 128, 255]\<rparr>)
      (\<lambda>b. ''png'') [blank 1 1] ''a''"
  note x = xray_loop_grey
  have r: "?r = \<lparr>heap_after = [blank 1 1,
      \<lparr>width = 1, height = 1, pixels = [126, 126, 126, 255]\<rparr>,
      \<lparr>width = 1, height = 1, pixels = [128, 128, 128, 255]\<rparr>,
      \<lparr>width = 1, height = 1, pixels = [126, 126, 126, 255]\<rparr>], canvas = 1, img = 2,
      imageData = Some 3, returned = Resolved ''png''\<rparr>"
    by (simp add: applyXRayEffect_loaded x)
  from C3_source_not_mutated [of "[blank 1 1]"
      "\<lambda>s. Some \<lparr>width = 1, height = 1, pixels = [128, 128, 128, 255]\<rparr>" "\<lambda>b. ''png''" "''a''"]
  show ?thesis unfolding r by simp
qed

text \<open>
  C6: for every source that decodes to a bitmap of positive width and height, the call
  resolves with the encoding of the canvas's bitmap, and that bitmap has the width, the
  height and the number of bytes of the decoded one. (A bitmap without width or height
  gives no output: \<open>getImageData\<close> raises and the promise stays pending.)
\<close>

theorem C6_dimensions_preserved:
  assumes "decode src = Some b" "0 < width b" "0 < height b"
  shows "\<exists>out. returned (applyXRayEffect decode enc h src) = Resolved (enc out) \<and>
     out = heap_after (applyXRayEffect decode enc h src) ! canvas (applyXRayEffect decode enc h src) \<and>
     width out = width b \<and> height out = height b \<and>
     length (pixels out) = length (pixels b)"
  using assms by (simp add: applyXRayEffect_loaded length_xray_loop)

theorem C6_dimensions_preserved_witness:
  "sample_decode ''A'' = Some \<lparr>width = 1, height = 1, pixels = [0, 0, 0, 255]\<rparr> \<and>
   (\<exists>out. returned (applyXRayEffect sample_decode sample_toDataURL [] ''A'') =
            Resolved (sample_toDataURL out) \<and>
          width out = 1 \<and> height out = 1 \<and> length (pixels out) = 4)"
proof -
  have d: "sample_decode ''A'' = Some \<lparr>width = 1, height = 1, pixels = [0, 0, 0, 255]\<rparr>"
    by (simp add: sample_decode_def)
  from C6_dimensions_preserved
    [of sample_decode "''A''" "\<lparr>width = 1, height = 1, pixels = [0, 0, 0, 255]\<rparr>"
      sample_toDataURL "[]"] d
  show ?thesis by auto
qed

text \<open>
  C9: for every value \<open>r\<close> of the random source, a double with \<open>0 \<le> r < 1\<close>, the
  confidence \<open>floor(r * 40) + 60\<close> is an integer from 60 to 99, and never 100. The product
  is rounded to a double; the largest double below 1 is \<open>1 - 2\<^sup>-\<^sup>5\<^sup>3\<close>, and its product
  with 40 rounds to the double just below 40.
\<close>

theorem C9_confidence_range:
  assumes "is_double r" "0 \<le> r" "r < 1"
  shows "60 \<le> mock_confidence r \<and> mock_confidence r \<le> 99 \<and> mock_confidence r \<noteq> 100"
proof -
  have top: "r * 40 \<le> 40 - 40 / 2 ^ 53"
    using double_below_one [OF assms] by simp
  have nn: "0 \<le> r * 40" using assms(2) by simp
  have lo: "0 \<le> round_double (r * 40)" using nn by (rule round_double_nonneg)
  have hi: "round_double (r * 40) < 40"
  proof (cases "r * 40 < 32")
    case True
    show ?thesis
    proof (cases "r * 40 = 0")
      case True
      then show ?thesis by (simp add: round_double_def)
    next
      case False
      with nn have "0 < r * 40" by simp
      from round_double_small [OF this True] show ?thesis by simp
    qed
  next
    case False
    then have "32 \<le> r * 40" by simp
    from round_double_top [OF this top] show ?thesis .
  qed
  from lo have f0: "0 \<le> \<lfloor>round_double (r * 40)\<rfloor>" by simp
  from hi have f40: "\<lfloor>round_double (r * 40)\<rfloor> < 40" by (simp add: floor_less_iff)
  show ?thesis unfolding mock_confidence_def using f0 f40 by linarith
qed

theorem C9_confidence_range_witness:
  "is_double (1 - 1 / 2 ^ 53) \<and> (0::rat) \<le> 1 - 1 / 2 ^ 53 \<and> (1 - 1 / 2 ^ 53 :: rat) < 1 \<and>
   mock_confidence (1 - 1 / 2 ^ 53) = 99"
proof -
  have d: "is_double (1 - 1 / 2 ^ 53)" by code_simp
  have m: "mock_confidence (1 - 1 / 2 ^ 53) = 99" by code_simp
  from C9_confidence_range [OF d] d m show ?thesis by simp
qed

text \<open>
  C10: stale results never outlive their image, that is, a non-null \<open>processedImage\<close> or
  \<open>analysisResult\<close> always refers to the currently selected image. The handler of the
  reader's \<open>load\<close> event and \<open>resetProcessor\<close> do clear both results
  (\<open>reader_onload_clears\<close>, \<open>resetProcessor_clears\<close>), but a run of \<open>processImage\<close> that
  is under way is not cancelled, and the property fails on this sequence: a file is chosen
  and loads, a second file is chosen, Process is clicked before the second file has
  loaded, the second file loads, and then the awaited effect and the timer call back. The
  component ends with the second image selected, next to the processed image and the
  analysis of the first.
\<close>

theorem C10_stale_results:
  "\<exists>s. run sample_decode sample_toDataURL initial
          [Change (Some ''A''), ReaderLoad 0, Change (Some ''B''), ClickProcess,
           ReaderLoad 0, EffectResolved 0, TimerFired 0 (3 / 4) (1 / 2)] = Some s \<and>
        selectedImage s = Some ''B'' \<and>
        returned (applyXRayEffect sample_decode sample_toDataURL [] ''A'') =
          Resolved (the (processedImage s)) \<and>
        returned (applyXRayEffect sample_decode sample_toDataURL [] ''B'') \<noteq>
          Resolved (the (processedImage s)) \<and>
        processedImage s \<noteq> None \<and> processedOf s = Some ''A'' \<and>
        analysisResult s \<noteq> None \<and> analysisOf s = Some ''A'' \<and>
        \<not> results_current s"
proof -
  note xa = xray_loop_black and xb = xray_loop_white
  have da: "sample_decode ''A'' = Some \<lparr>width = 1, height = 1, pixels = [0, 0, 0, 255]\<rparr>"
    by (simp add: sample_decode_def)
  have db: "sample_decode ''B'' = Some \<lparr>width = 1, height = 1, pixels = [255, 255, 255, 255]\<rparr>"
    by (simp add: sample_decode_def)
  have a: "returned (applyXRayEffect sample_decode sample_toDataURL [] ''A'') =
      Resolved (map char_of [255, 255, 255, 255 :: int])"
    using applyXRayEffect_loaded
      [of sample_decode "''A''" "\<lparr>width = 1, height = 1, pixels = [0, 0, 0, 255]\<rparr>"
        sample_toDataURL "[]"] da
    by (simp add: xa sample_toDataURL_def)
  have b: "returned (applyXRayEffect sample_decode sample_toDataURL [] ''B'') =
      Resolved (map char_of [0, 0, 0, 255 :: int])"
    using applyXRayEffect_loaded
      [of sample_decode "''B''" "\<lparr>width = 1, height = 1, pixels = [255, 255, 255, 255]\<rparr>"
        sample_toDataURL "[]"] db
    by (simp add: xb sample_toDataURL_def)
  have ne: "map char_of [0, 0, 0, 255 :: int] \<noteq> map char_of [255, 255, 255, 255 :: int]"
    by simp
  have "run sample_decode sample_toDataURL initial
          [Change (Some ''A''), ReaderLoad 0, Change (Some ''B''), ClickProcess,
           ReaderLoad 0, EffectResolved 0, TimerFired 0 (3 / 4) (1 / 2)] =
        Some \<lparr>selectedImage = Some ''B'',
              processedImage = Some (map char_of [255, 255, 255, 255 :: int]),
              isProcessing = False, analysisResult = Some (mockResult (3 / 4) (1 / 2)),
              reads = [], awaited = [], timers = [],
              processedOf = Some ''A'', analysisOf = Some ''A''\<rparr>"
    by (simp add: step_def initial_def handleImageUpload_def reader_onload_def processImage_def
        processImage_resumed_def timer_fired_def truthy_def remove_nth_def a)
  then show ?thesis using ne by (auto simp add: a b results_current_def)
qed

end
